theory Spec2Isabelle
  imports Main "HOL-Library.AList" "HOL-Library.Char_ord" "HOL-Library.List_Lexorder"
begin

section \<open>Characters and strings of the splitter\<close>

text \<open>
  The splitter (\<^verbatim>\<open>src/utilities/ddl_splitter.py\<close>) works on Python \<^verbatim>\<open>str\<close> values.
  A document is modelled as a \<^typ>\<open>string\<close>. The classifications below are those of Python
  for the code points below 128; a \<^typ>\<open>char\<close> from 128 on stands for a character that is
  neither white space, nor alphanumeric, nor cased (a symbol), which is how the functions
  below treat it.
\<close>

text \<open>\<^verbatim>\<open>str.isspace\<close> and the class \<^verbatim>\<open>\s\<close> of \<^verbatim>\<open>re\<close>: tab, line feed, vertical tab, form
  feed, carriage return, the four separators 0x1C to 0x1F, and the space.\<close>

definition is_space :: "char \<Rightarrow> bool" where
  "is_space c \<longleftrightarrow> c \<in> set [CHR 0x09, CHR 0x0A, CHR 0x0B, CHR 0x0C, CHR 0x0D,
                            CHR 0x1C, CHR 0x1D, CHR 0x1E, CHR 0x1F, CHR 0x20]"

text \<open>The class \<^verbatim>\<open>\w\<close>: letters, digits and the underscore.\<close>

definition is_word :: "char \<Rightarrow> bool" where
  "is_word c \<longleftrightarrow>
     c \<in> set ''abcdefghijklmnopqrstuvwxyzABCDEFGHIJKLMNOPQRSTUVWXYZ0123456789_''"

definition lower_char :: "char \<Rightarrow> char" where
  "lower_char c =
     (case map_of (zip ''ABCDEFGHIJKLMNOPQRSTUVWXYZ'' ''abcdefghijklmnopqrstuvwxyz'') c of
        Some d \<Rightarrow> d
      | None \<Rightarrow> c)"

definition upper_char :: "char \<Rightarrow> char" where
  "upper_char c =
     (case map_of (zip ''abcdefghijklmnopqrstuvwxyz'' ''ABCDEFGHIJKLMNOPQRSTUVWXYZ'') c of
        Some d \<Rightarrow> d
      | None \<Rightarrow> c)"

text \<open>\<^verbatim>\<open>str.lower\<close>, \<^verbatim>\<open>str.upper\<close>, \<^verbatim>\<open>str.strip\<close>, \<^verbatim>\<open>str.startswith\<close> and
  \<^verbatim>\<open>str.endswith\<close>.\<close>

definition lower :: "string \<Rightarrow> string" where
  "lower s = map lower_char s"

definition upper :: "string \<Rightarrow> string" where
  "upper s = map upper_char s"

definition lstrip :: "string \<Rightarrow> string" where
  "lstrip s = dropWhile is_space s"

definition rstrip :: "string \<Rightarrow> string" where
  "rstrip s = rev (dropWhile is_space (rev s))"

definition strip :: "string \<Rightarrow> string" where
  "strip s = rstrip (lstrip s)"

definition startswith :: "string \<Rightarrow> string \<Rightarrow> bool" where
  "startswith s p \<longleftrightarrow> take (length p) s = p"

definition endswith :: "string \<Rightarrow> string \<Rightarrow> bool" where
  "endswith s p \<longleftrightarrow> length p \<le> length s \<and> drop (length s - length p) s = p"

text \<open>\<^verbatim>\<open>s.split(sep)\<close> for a separator of one character: the pieces between the
  separators, always at least one piece.\<close>

fun split_on :: "char \<Rightarrow> string \<Rightarrow> string list" where
  "split_on sep [] = [[]]"
| "split_on sep (c # cs) =
     (if c = sep then [] # split_on sep cs
      else (case split_on sep cs of
              [] \<Rightarrow> [[c]]
            | w # ws \<Rightarrow> (c # w) # ws))"

text \<open>Decimal rendering of a number, as \<^verbatim>\<open>str(n)\<close> and the format \<^verbatim>\<open>{n:04d}\<close> give it
  for a natural number.\<close>

definition digit_char :: "nat \<Rightarrow> char" where
  "digit_char d = ''0123456789'' ! d"

fun decimal :: "nat \<Rightarrow> string" where
  "decimal n = (if n < 10 then [digit_char n] else decimal (n div 10) @ [digit_char (n mod 10)])"

declare decimal.simps [simp del]

definition zero_pad :: "nat \<Rightarrow> string \<Rightarrow> string" where
  "zero_pad w s = replicate (w - length s) CHR ''0'' @ s"

definition format_04d :: "nat \<Rightarrow> string" where
  "format_04d n = zero_pad 4 (decimal n)"

section \<open>Regular expressions with the matching order of \<^verbatim>\<open>re\<close>\<close>

text \<open>
  The character classes and the constructs that occur in the patterns of the splitter.
  \<open>Plus\<close> and \<open>Star\<close> are the greedy repetitions of one character class, \<open>StarLazy\<close> the
  non-greedy one (\<^verbatim>\<open>.*?\<close>), \<open>Opt\<close> the greedy option \<^verbatim>\<open>(?:...)?\<close>, \<open>Eol\<close> the anchor \<^verbatim>\<open>$\<close>
  under \<^verbatim>\<open>re.MULTILINE\<close>.
\<close>

datatype cclass =
    Space          \<comment> \<open>\<^verbatim>\<open>\s\<close>\<close>
  | Word           \<comment> \<open>\<^verbatim>\<open>\w\<close>\<close>
  | NotSemi        \<comment> \<open>\<^verbatim>\<open>[^;]\<close>\<close>
  | NotSpaceParen  \<comment> \<open>\<^verbatim>\<open>[^\s(]\<close>\<close>
  | Quote          \<comment> \<open>the class of the two quote characters\<close>
  | Illegal        \<comment> \<open>the class of the characters illegal in a file name\<close>
  | Dot            \<comment> \<open>\<^verbatim>\<open>.\<close> without \<^verbatim>\<open>re.DOTALL\<close>\<close>
  | DotAll         \<comment> \<open>\<^verbatim>\<open>.\<close> under \<^verbatim>\<open>re.DOTALL\<close>\<close>

definition illegal_chars :: "char list" where
  "illegal_chars = [CHR ''<'', CHR ''>'', CHR '':'', CHR 0x22, CHR ''/'', CHR 0x5C,
                    CHR ''|'', CHR ''?'', CHR ''*'']"

fun in_class :: "cclass \<Rightarrow> char \<Rightarrow> bool" where
  "in_class Space c = is_space c"
| "in_class Word c = is_word c"
| "in_class NotSemi c = (c \<noteq> CHR '';'')"
| "in_class NotSpaceParen c = (\<not> is_space c \<and> c \<noteq> CHR ''('')"
| "in_class Quote c = (c = CHR 0x22 \<or> c = CHR 0x27)"
| "in_class Illegal c = (c \<in> set illegal_chars)"
| "in_class Dot c = (c \<noteq> CHR 0x0A)"
| "in_class DotAll c = True"

datatype regex =
    Chr char
  | Cls cclass
  | Plus cclass
  | Star cclass
  | StarLazy cclass
  | Eps
  | Eol
  | Seq regex regex
  | Alt regex regex
  | Opt regex

text \<open>A literal character of a pattern matches itself, and under \<^verbatim>\<open>re.IGNORECASE\<close> (the
  flag \<open>ic\<close>) the other case of the same letter.\<close>

definition chr_eq :: "bool \<Rightarrow> char \<Rightarrow> char \<Rightarrow> bool" where
  "chr_eq ic p c \<longleftrightarrow> (if ic then lower_char p = lower_char c else p = c)"

text \<open>
  \<open>rmatch ic r s\<close> lists the ways in which \<open>r\<close> matches a prefix of \<open>s\<close>, each as the
  pair of the matched text and the rest of \<open>s\<close>, in the order in which the backtracking
  matcher of \<^verbatim>\<open>re\<close> tries them: the head of the list is the match that \<^verbatim>\<open>re\<close> returns.
\<close>

definition splits_at :: "string \<Rightarrow> nat list \<Rightarrow> (string \<times> string) list" where
  "splits_at s js = map (\<lambda>j. (take j s, drop j s)) js"

fun rmatch :: "bool \<Rightarrow> regex \<Rightarrow> string \<Rightarrow> (string \<times> string) list" where
  "rmatch ic (Chr p) s =
     (case s of [] \<Rightarrow> [] | c # cs \<Rightarrow> if chr_eq ic p c then [([c], cs)] else [])"
| "rmatch ic (Cls k) s =
     (case s of [] \<Rightarrow> [] | c # cs \<Rightarrow> if in_class k c then [([c], cs)] else [])"
| "rmatch ic (Plus k) s = splits_at s (rev [1 ..< Suc (length (takeWhile (in_class k) s))])"
| "rmatch ic (Star k) s = splits_at s (rev [0 ..< Suc (length (takeWhile (in_class k) s))])"
| "rmatch ic (StarLazy k) s = splits_at s [0 ..< Suc (length (takeWhile (in_class k) s))]"
| "rmatch ic Eps s = [([], s)]"
| "rmatch ic Eol s = (case s of [] \<Rightarrow> [([], s)] | c # cs \<Rightarrow> if c = CHR 0x0A then [([], s)] else [])"
| "rmatch ic (Seq a b) s =
     concat (map (\<lambda>(m1, t1). map (\<lambda>(m2, t2). (m1 @ m2, t2)) (rmatch ic b t1)) (rmatch ic a s))"
| "rmatch ic (Alt a b) s = rmatch ic a s @ rmatch ic b s"
| "rmatch ic (Opt a) s = rmatch ic a s @ [([], s)]"

text \<open>\<^verbatim>\<open>re.match\<close>: the first match at the start of the text, if there is one.\<close>

definition match_here :: "bool \<Rightarrow> regex \<Rightarrow> string \<Rightarrow> (string \<times> string) option" where
  "match_here ic r s = (case rmatch ic r s of [] \<Rightarrow> None | x # _ \<Rightarrow> Some x)"

text \<open>
  \<^verbatim>\<open>re.findall\<close> for a pattern without groups: the scan goes from left to right, takes the
  first match at the leftmost position where there is one, and goes on after it. None of
  the patterns of the splitter matches the empty text, so the rule of \<^verbatim>\<open>re\<close> for empty
  matches is never used: the scan below moves one character on at a match that consumes
  nothing.
\<close>

function findall :: "bool \<Rightarrow> regex \<Rightarrow> string \<Rightarrow> string list" where
  "findall ic r s =
     (case match_here ic r s of
        Some (m, t) \<Rightarrow>
          if length t < length s then m # findall ic r t
          else (case s of [] \<Rightarrow> [] | _ # cs \<Rightarrow> findall ic r cs)
      | None \<Rightarrow> (case s of [] \<Rightarrow> [] | _ # cs \<Rightarrow> findall ic r cs))"
  by pat_completeness auto
termination
  by (relation "measure (\<lambda>(ic, r, s). length s)") auto

declare findall.simps [simp del]

text \<open>\<^verbatim>\<open>re.sub\<close> with a constant replacement, under the same scan.\<close>

function sub :: "bool \<Rightarrow> regex \<Rightarrow> string \<Rightarrow> string \<Rightarrow> string" where
  "sub ic r rep s =
     (case match_here ic r s of
        Some (m, t) \<Rightarrow>
          if length t < length s then rep @ sub ic r rep t
          else (case s of [] \<Rightarrow> [] | c # cs \<Rightarrow> c # sub ic r rep cs)
      | None \<Rightarrow> (case s of [] \<Rightarrow> [] | c # cs \<Rightarrow> c # sub ic r rep cs))"
  by pat_completeness auto
termination
  by (relation "measure (\<lambda>(ic, r, rep, s). length s)") auto

declare sub.simps [simp del]

text \<open>A literal word of a pattern, and the sequence of several parts.\<close>

definition lit :: "string \<Rightarrow> regex" where
  "lit w = foldr (\<lambda>c r. Seq (Chr c) r) w Eps"

definition seqs :: "regex list \<Rightarrow> regex" where
  "seqs rs = foldr Seq rs Eps"

abbreviation ws :: regex where
  "ws \<equiv> Plus Space"

section \<open>The patterns of the splitter\<close>

text \<open>The prefix \<^verbatim>\<open>CREATE\s+(?:OR\s+REPLACE\s+)?\<close> that every pattern starts with, and the
  tail \<^verbatim>\<open>\s+[^;]+;\<close> that every pattern ends with.\<close>

definition or_replace :: regex where
  "or_replace = Opt (seqs [lit ''OR'', ws, lit ''REPLACE'', ws])"

definition create_prefix :: regex where
  "create_prefix = Seq (lit ''CREATE'') (Seq ws or_replace)"

definition body_tail :: regex where
  "body_tail = Seq ws (Seq (Plus NotSemi) (Chr CHR '';''))"

definition ddl :: "regex \<Rightarrow> regex" where
  "ddl kw = Seq create_prefix (Seq kw body_tail)"

text \<open>\<^verbatim>\<open>DDLSplitter.DDL_PATTERNS\<close>, in the order of the declaration.\<close>

definition DDL_PATTERNS :: "regex list" where
  "DDL_PATTERNS =
    [ ddl (Seq (Opt (seqs [lit ''TEMP'', Opt (lit ''ORARY''), ws])) (lit ''TABLE'')),
      ddl (lit ''VIEW''),
      ddl (Seq (Opt (seqs [lit ''MATERIALIZED'', ws])) (lit ''VIEW'')),
      ddl (lit ''FUNCTION''),
      ddl (lit ''PROCEDURE''),
      ddl (lit ''SEQUENCE''),
      ddl (lit ''STREAM''),
      ddl (lit ''TASK''),
      ddl (lit ''PIPE''),
      ddl (seqs [lit ''FILE'', ws, lit ''FORMAT'']),
      ddl (lit ''WAREHOUSE''),
      ddl (lit ''DATABASE''),
      ddl (lit ''SCHEMA''),
      ddl (seqs [Alt (lit ''MASKING'')
                (Alt (seqs [lit ''ROW'', ws, lit ''ACCESS''])
                (Alt (lit ''AGGREGATION'')
                (Alt (lit ''AUTHENTICATION'')
                (Alt (lit ''JOIN'')
                (Alt (lit ''PASSWORD'')
                (Alt (lit ''PRIVACY'')
                (Alt (lit ''PROJECTION'') (lit ''SESSION'')))))))),
                 ws, lit ''POLICY'']),
      ddl (lit ''TAG''),
      ddl (seqs [lit ''STORAGE'', ws, lit ''INTEGRATION'']),
      ddl (seqs [Alt (lit ''EXTERNAL'') (Alt (lit ''HYBRID'') (lit ''ICEBERG'')), ws,
                 lit ''TABLE'']),
      ddl (seqs [lit ''DYNAMIC'', ws, lit ''TABLE'']),
      ddl (seqs [lit ''EVENT'', ws, lit ''TABLE'']),
      ddl (seqs [lit ''SEMANTIC'', ws, lit ''VIEW'']),
      ddl (lit ''ALERT''),
      ddl (seqs [lit ''DBT'', ws, lit ''PROJECT'']),
      ddl (seqs [lit ''DATA'', ws, lit ''METRIC'', ws, lit ''FUNCTION'']) ]"

section \<open>Normalisation and extraction of the statements\<close>

text \<open>The three substitutions at the start of \<^verbatim>\<open>split_single_file\<close>: line comments
  \<^verbatim>\<open>--.*$\<close> (\<^verbatim>\<open>re.MULTILINE\<close>), block comments \<^verbatim>\<open>/\*.*?\*/\<close> (\<^verbatim>\<open>re.DOTALL\<close>), and
  runs of white space \<^verbatim>\<open>\s+\<close>, which become one space.\<close>

definition line_comment :: regex where
  "line_comment = seqs [Chr CHR ''-'', Chr CHR ''-'', Star Dot, Eol]"

definition block_comment :: regex where
  "block_comment =
     seqs [Chr CHR ''/'', Chr CHR ''*'', StarLazy DotAll, Chr CHR ''*'', Chr CHR ''/'']"

definition normalize :: "string \<Rightarrow> string" where
  "normalize content =
     (let content = sub False line_comment [] content;
          content = sub False block_comment [] content
      in sub False ws '' '' content)"

text \<open>The loop over the patterns: the matches of each pattern, one pattern after the
  other.\<close>

definition pattern_statements :: "string \<Rightarrow> string list" where
  "pattern_statements content = concat (map (\<lambda>pattern. findall True pattern content) DDL_PATTERNS)"

text \<open>The fallback when no pattern matched anything: the pieces between the semicolons
  that start with \<^verbatim>\<open>CREATE\<close>, each trimmed and given a semicolon.\<close>

definition fallback_statements :: "string \<Rightarrow> string list" where
  "fallback_statements content =
     [strip stmt @ '';''. stmt \<leftarrow> split_on CHR '';'' content,
                          startswith (upper (strip stmt)) ''CREATE'']"

definition extract_statements :: "string \<Rightarrow> string list" where
  "extract_statements content =
     (let all_statements = pattern_statements content
      in if all_statements = [] then fallback_statements content else all_statements)"

section \<open>The name of an output file\<close>

text \<open>The groups of \<^verbatim>\<open>re.match(r'(\w+)\s+([^\s(]+)', ...)\<close>: the first way, in the order of
  the matcher, in which the three parts match one after the other.\<close>

definition kind_and_name :: "string \<Rightarrow> (string \<times> string) option" where
  "kind_and_name s =
     (case [(g1, g2). (g1, t1) \<leftarrow> rmatch True (Plus Word) s,
                      (sp, t2) \<leftarrow> rmatch True ws t1,
                      (g2, t3) \<leftarrow> rmatch True (Plus NotSpaceParen) t2] of
        [] \<Rightarrow> None
      | x # _ \<Rightarrow> Some x)"

text \<open>
  \<^verbatim>\<open>_extract_object_name\<close>, in two steps. \<open>object_descriptor\<close> is the branch taken when
  the match succeeds: the object type in lower case and the cleaned object name.
  The last line of the source calls \<^verbatim>\<open>hash\<close> on a \<^verbatim>\<open>str\<close>, which Python salts anew in
  every process, so the hash function \<open>h\<close> of the running process is a parameter. \<^verbatim>\<open>%\<close>
  with a positive right operand gives a number from 0 on, as \<open>mod\<close> on \<^typ>\<open>int\<close> does.
\<close>

definition object_descriptor :: "string \<Rightarrow> (string \<times> string) option" where
  "object_descriptor ddl_statement =
     (let clean_ddl = sub True create_prefix [] ddl_statement
      in case kind_and_name (strip clean_ddl) of
           Some (object_type, object_name) \<Rightarrow>
             (let clean_name = sub False (Cls Quote) [] object_name;
                  clean_name = last (split_on CHR ''.'' clean_name)
              in Some (lower object_type, clean_name))
         | None \<Rightarrow> None)"

definition extract_object_name :: "(string \<Rightarrow> int) \<Rightarrow> string \<Rightarrow> string" where
  "extract_object_name h ddl_statement =
     (case object_descriptor ddl_statement of
        Some (object_type, clean_name) \<Rightarrow> object_type @ ''_'' @ clean_name
      | None \<Rightarrow> ''object_'' @ decimal (nat (h ddl_statement mod 10000)))"

text \<open>\<^verbatim>\<open>_sanitize_filename\<close>.\<close>

definition sanitize_filename :: "string \<Rightarrow> string" where
  "sanitize_filename filename =
     (let sanitized = sub False (Cls Illegal) ''_'' filename
      in if length sanitized > 200 then take 200 sanitized else sanitized)"

text \<open>The file name of the statement with ordinal \<open>i\<close>:
  \<^verbatim>\<open>f"{source_prefix}_{i:04d}_{sanitized_name}.sql"\<close>.\<close>

definition output_filename :: "(string \<Rightarrow> int) \<Rightarrow> string \<Rightarrow> nat \<Rightarrow> string \<Rightarrow> string" where
  "output_filename h source_prefix i statement =
     (let object_name = extract_object_name h statement;
          sanitized_name = sanitize_filename object_name
      in source_prefix @ ''_'' @ format_04d i @ ''_'' @ sanitized_name @ ''.sql'')"

section \<open>Paths and the file system\<close>

text \<open>
  A path is the list of its components, as \<^verbatim>\<open>pathlib.Path\<close> keeps it; the empty list is
  the current directory. The file system holds the regular files with their text, and the
  directories. The failures modelled are those that the state of the file system decides:
  a directory cannot be made where a file is, a file cannot be written where a directory
  is or where no directory holds it, and a file that is not there cannot be read.
\<close>

type_synonym path = "string list"

record filesystem =
  files :: "(path \<times> string) list"
  dirs :: "path list"

datatype error =
    FileExistsError
  | NotADirectoryError
  | FileNotFoundError
  | IsADirectoryError
  | KeyboardInterrupt

definition is_file :: "filesystem \<Rightarrow> path \<Rightarrow> bool" where
  "is_file fs p \<longleftrightarrow> map_of (files fs) p \<noteq> None"

definition is_dir :: "filesystem \<Rightarrow> path \<Rightarrow> bool" where
  "is_dir fs p \<longleftrightarrow> p = [] \<or> p \<in> set (dirs fs)"

definition path_exists :: "filesystem \<Rightarrow> path \<Rightarrow> bool" where
  "path_exists fs p \<longleftrightarrow> is_file fs p \<or> is_dir fs p"

text \<open>\<^verbatim>\<open>Path.name\<close>, \<^verbatim>\<open>Path.parent\<close>, \<^verbatim>\<open>Path.suffix\<close> and \<^verbatim>\<open>Path.stem\<close>: the suffix starts at
  the last dot of the name, unless that dot is the first or the last character.\<close>

definition path_name :: "path \<Rightarrow> string" where
  "path_name p = (if p = [] then [] else last p)"

definition parent :: "path \<Rightarrow> path" where
  "parent p = butlast p"

text \<open>\<^verbatim>\<open>str.rfind\<close> for one character: the index of its last occurrence.\<close>

definition rfind :: "char \<Rightarrow> string \<Rightarrow> nat option" where
  "rfind c s =
     (if c \<in> set s then Some (length s - 1 - length (takeWhile (\<lambda>x. x \<noteq> c) (rev s)))
      else None)"

definition name_suffix :: "string \<Rightarrow> string" where
  "name_suffix name =
     (case rfind CHR ''.'' name of
        Some i \<Rightarrow> if 0 < i \<and> i < length name - 1 then drop i name else []
      | None \<Rightarrow> [])"

definition name_stem :: "string \<Rightarrow> string" where
  "name_stem name =
     (case rfind CHR ''.'' name of
        Some i \<Rightarrow> if 0 < i \<and> i < length name - 1 then take i name else name
      | None \<Rightarrow> name)"

definition stem :: "path \<Rightarrow> string" where
  "stem p = name_stem (path_name p)"

definition suffix :: "path \<Rightarrow> string" where
  "suffix p = name_suffix (path_name p)"

text \<open>\<^verbatim>\<open>Path(s)\<close> for a text \<open>s\<close>: the components between the slashes, without the empty
  ones and the single dots; a leading slash is kept as the root component.\<close>

definition to_path :: "string \<Rightarrow> path" where
  "to_path s =
     (if startswith s ''/'' then [''/''] else []) @
     filter (\<lambda>c. c \<noteq> [] \<and> c \<noteq> ''.'') (split_on CHR ''/'' s)"

text \<open>\<^verbatim>\<open>mkdir(parents=True, exist_ok=True)\<close>: fails where the path or one of its ancestors
  is a file, and otherwise makes the directories that are missing.\<close>

definition ancestors_and_self :: "path \<Rightarrow> path list" where
  "ancestors_and_self p = map (\<lambda>n. take n p) [1 ..< Suc (length p)]"

definition mkdir_parents :: "filesystem \<Rightarrow> path \<Rightarrow> error + filesystem" where
  "mkdir_parents fs p =
     (if list_ex (is_file fs) (ancestors_and_self (parent p)) then Inl NotADirectoryError
      else if is_file fs p then Inl FileExistsError
      else Inr (fs\<lparr>dirs := dirs fs @ filter (\<lambda>q. \<not> is_dir fs q) (ancestors_and_self p)\<rparr>))"

text \<open>\<^verbatim>\<open>open(p, 'r').read()\<close> and \<^verbatim>\<open>open(p, 'w').write(text)\<close>; the latter replaces the text
  of a file that is there.\<close>

definition read_file :: "filesystem \<Rightarrow> path \<Rightarrow> error + string" where
  "read_file fs p =
     (case map_of (files fs) p of
        Some content \<Rightarrow> Inr content
      | None \<Rightarrow> if is_dir fs p then Inl IsADirectoryError else Inl FileNotFoundError)"

definition write_file :: "filesystem \<Rightarrow> path \<Rightarrow> string \<Rightarrow> error + filesystem" where
  "write_file fs p content =
     (if is_dir fs p then Inl IsADirectoryError
      else if \<not> is_dir fs (parent p) then Inl FileNotFoundError
      else Inr (fs\<lparr>files := AList.update p content (files fs)\<rparr>))"

section \<open>Splitting one file\<close>

text \<open>
  The loop of \<^verbatim>\<open>split_single_file\<close> over \<^verbatim>\<open>enumerate(all_statements, 1)\<close>, with the number
  of successful splits and the file system as its state. A statement that is empty when
  trimmed is passed over; a failure of the write is caught and the loop goes on.
\<close>

fun write_statements ::
  "(string \<Rightarrow> int) \<Rightarrow> string \<Rightarrow> path \<Rightarrow> (nat \<times> string) list \<Rightarrow> nat \<times> filesystem
     \<Rightarrow> nat \<times> filesystem" where
  "write_statements h source_prefix output_dir [] acc = acc"
| "write_statements h source_prefix output_dir ((i, statement) # rest) (successful_splits, fs) =
     (if strip statement = [] then
        write_statements h source_prefix output_dir rest (successful_splits, fs)
      else
        (let filename = output_filename h source_prefix i statement;
             filepath = output_dir @ [filename]
         in case write_file fs filepath (strip statement @ [CHR 0x0A]) of
              Inr fs' \<Rightarrow>
                write_statements h source_prefix output_dir rest (Suc successful_splits, fs')
            | Inl e \<Rightarrow>
                write_statements h source_prefix output_dir rest (successful_splits, fs)))"

text \<open>\<^verbatim>\<open>split_single_file\<close>: the result is the pair of the number of statements found and
  the number of statements written, or the error that was raised, with the file system as
  it is then.\<close>

definition split_single_file ::
  "(string \<Rightarrow> int) \<Rightarrow> filesystem \<Rightarrow> path \<Rightarrow> path \<Rightarrow> (error + nat \<times> nat) \<times> filesystem" where
  "split_single_file h fs input_file output_dir =
     (case mkdir_parents fs output_dir of
        Inl e \<Rightarrow> (Inl e, fs)
      | Inr fs1 \<Rightarrow>
          (case read_file fs1 input_file of
             Inl e \<Rightarrow> (Inl e, fs1)
           | Inr content \<Rightarrow>
               (let content = normalize content;
                    all_statements = extract_statements content;
                    (successful_splits, fs2) =
                       write_statements h (stem input_file) output_dir
                         (List.enumerate 1 all_statements) (0, fs1)
                in (Inr (length all_statements, successful_splits), fs2))))"

section \<open>Splitting a file or a folder\<close>

text \<open>\<^verbatim>\<open>_get_default_output_dir\<close> and the choice of the output directory in
  \<^verbatim>\<open>__init__\<close>, where an empty text counts as no argument.\<close>

definition get_default_output_dir :: "filesystem \<Rightarrow> path \<Rightarrow> path" where
  "get_default_output_dir fs input_path =
     (if is_file fs input_path then parent input_path @ [stem input_path @ ''_split'']
      else parent input_path @ [path_name input_path @ ''_split''])"

definition choose_output_dir :: "filesystem \<Rightarrow> path \<Rightarrow> string option \<Rightarrow> path" where
  "choose_output_dir fs input_path output_dir =
     (case output_dir of
        Some d \<Rightarrow> if d \<noteq> [] then to_path d else get_default_output_dir fs input_path
      | None \<Rightarrow> get_default_output_dir fs input_path)"

text \<open>\<^verbatim>\<open>_find_ddl_files\<close>: the regular files below the directory whose suffix is one of the
  four, sorted as paths.\<close>

definition sql_extensions :: "string list" where
  "sql_extensions = [''.sql'', ''.ddl'', ''.SQL'', ''.DDL'']"

definition below :: "path \<Rightarrow> path \<Rightarrow> bool" where
  "below directory p \<longleftrightarrow> length directory < length p \<and> take (length directory) p = directory"

definition find_ddl_files :: "filesystem \<Rightarrow> path \<Rightarrow> path list" where
  "find_ddl_files fs directory =
     sort [file_path. file_path \<leftarrow> map fst (files fs), below directory file_path,
                      suffix file_path \<in> set sql_extensions]"

text \<open>The loop of the folder mode: each file goes to the subdirectory named by its stem;
  an error in one file is caught and the loop goes on.\<close>

fun process_files ::
  "(string \<Rightarrow> int) \<Rightarrow> path \<Rightarrow> path list \<Rightarrow> nat \<times> nat \<times> filesystem \<Rightarrow> nat \<times> nat \<times> filesystem" where
  "process_files h output_dir [] acc = acc"
| "process_files h output_dir (ddl_file # rest)
     (total_files_processed, total_statements_processed, fs) =
     (case split_single_file h fs ddl_file (output_dir @ [stem ddl_file]) of
        (Inr (statements, successful), fs') \<Rightarrow>
          process_files h output_dir rest
            (Suc total_files_processed, total_statements_processed + successful, fs')
      | (Inl e, fs') \<Rightarrow>
          process_files h output_dir rest
            (total_files_processed, total_statements_processed, fs'))"

definition split_ddl ::
  "(string \<Rightarrow> int) \<Rightarrow> filesystem \<Rightarrow> path \<Rightarrow> path \<Rightarrow> (error + nat \<times> nat) \<times> filesystem" where
  "split_ddl h fs input_path output_dir =
     (if is_file fs input_path then
        (case split_single_file h fs input_path output_dir of
           (Inr (total_statements, successful_splits), fs') \<Rightarrow> (Inr (1, successful_splits), fs')
         | (Inl e, fs') \<Rightarrow> (Inl e, fs'))
      else
        (let ddl_files = find_ddl_files fs input_path
         in if ddl_files = [] then (Inr (0, 0), fs)
            else (case process_files h output_dir ddl_files (0, 0, fs) of
                    (total_files_processed, total_statements_processed, fs') \<Rightarrow>
                      (Inr (total_files_processed, total_statements_processed), fs'))))"

section \<open>The command line\<close>

text \<open>
  What \<^verbatim>\<open>input()\<close> meets on the standard input: a line, the end of the input
  (\<^verbatim>\<open>EOFError\<close>) or an interrupt by the user (\<^verbatim>\<open>KeyboardInterrupt\<close>). An input that has run
  out is at its end. The functions of the prompt flow give \<open>Inl code\<close> where the source
  calls \<^verbatim>\<open>sys.exit(code)\<close>.
\<close>

datatype event = Line string | EOF | Interrupt

definition os_path_exists :: "filesystem \<Rightarrow> string \<Rightarrow> bool" where
  "os_path_exists fs s \<longleftrightarrow> s \<noteq> [] \<and> path_exists fs (to_path s)"

definition os_path_isfile :: "filesystem \<Rightarrow> string \<Rightarrow> bool" where
  "os_path_isfile fs s \<longleftrightarrow> s \<noteq> [] \<and> is_file fs (to_path s)"

fun get_user_input :: "filesystem \<Rightarrow> event list \<Rightarrow> (int + string) \<times> event list" where
  "get_user_input fs [] = (Inl 0, [])"
| "get_user_input fs (EOF # es) = (Inl 0, es)"
| "get_user_input fs (Interrupt # es) = (Inl 0, es)"
| "get_user_input fs (Line l # es) =
     (let input_path = strip l
      in if input_path = [] then get_user_input fs es
         else if \<not> os_path_exists fs input_path then get_user_input fs es
         else if os_path_isfile fs input_path
                 \<and> \<not> (endswith (lower input_path) ''.sql'' \<or> endswith (lower input_path) ''.ddl'')
         then (case es of
                 [] \<Rightarrow> (Inl 0, [])
               | EOF # es' \<Rightarrow> (Inl 0, es')
               | Interrupt # es' \<Rightarrow> (Inl 0, es')
               | Line response # es' \<Rightarrow>
                   if lower response \<in> set [''y'', ''yes''] then (Inr input_path, es')
                   else get_user_input fs es')
         else (Inr input_path, es))"

fun get_output_directory :: "event list \<Rightarrow> (int + string option) \<times> event list" where
  "get_output_directory [] = (Inl 0, [])"
| "get_output_directory (EOF # es) = (Inl 0, es)"
| "get_output_directory (Interrupt # es) = (Inl 0, es)"
| "get_output_directory (Line l # es) =
     (let output_dir = strip l
      in if output_dir = [] then (Inr None, es) else (Inr (Some output_dir), es))"

text \<open>
  An interrupt outside \<^verbatim>\<open>input()\<close> is given by the place where it arrives: while the
  banner of the interactive mode is printed, inside the first \<^verbatim>\<open>try\<close> of \<^verbatim>\<open>main\<close>, or as
  \<^verbatim>\<open>split_ddl\<close> starts, inside the second.
\<close>

datatype interrupt = NoInterrupt | InBanner | InSplit

text \<open>The part of \<^verbatim>\<open>main\<close> after the arguments are known: the result is the exit code of
  the process and the file system.\<close>

definition run_splitter ::
  "(string \<Rightarrow> int) \<Rightarrow> interrupt \<Rightarrow> filesystem \<Rightarrow> string \<Rightarrow> string option \<Rightarrow> int \<times> filesystem" where
  "run_splitter h intr fs input_path output_dir =
     (if \<not> os_path_exists fs input_path then (1, fs)
      else
        (case (if intr = InSplit then (Inl KeyboardInterrupt, fs)
               else split_ddl h fs (to_path input_path)
                      (choose_output_dir fs (to_path input_path) output_dir)) of
           (Inr (files_processed, statements_processed), fs') \<Rightarrow>
             if statements_processed > 0 then (0, fs') else (1, fs')
         | (Inl e, fs') \<Rightarrow> (1, fs')))"

definition main ::
  "(string \<Rightarrow> int) \<Rightarrow> string list \<Rightarrow> event list \<Rightarrow> interrupt \<Rightarrow> filesystem \<Rightarrow> int \<times> filesystem" where
  "main h argv events intr fs =
     (if length argv > 1 \<and> argv ! 1 \<in> set [''--help'', ''-h'', ''help''] then (0, fs)
      else if length argv = 1 then
        (case get_user_input fs events of
           (Inl code, es) \<Rightarrow> (code, fs)
         | (Inr input_path, es) \<Rightarrow>
             (case get_output_directory es of
                (Inl code, es') \<Rightarrow> (code, fs)
              | (Inr output_dir, es') \<Rightarrow>
                  if intr = InBanner then (0, fs)
                  else run_splitter h intr fs input_path output_dir))
      else if length argv < 2 then (1, fs)
      else run_splitter h intr fs (argv ! 1) (if length argv > 2 then Some (argv ! 2) else None))"

section \<open>Notions used to state the properties\<close>

text \<open>The texts \<open>ms\<close> occur in \<open>s\<close> one after the other, from left to right and without
  overlap.\<close>

fun in_order :: "string list \<Rightarrow> string \<Rightarrow> bool" where
  "in_order [] s = True"
| "in_order (m # ms) s =
     list_ex (\<lambda>j. take (length m) (drop j s) = m \<and> in_order ms (drop (j + length m) s))
       [0 ..< Suc (length s)]"

text \<open>The number that a text of decimal digits stands for.\<close>

definition digit_val :: "char \<Rightarrow> nat" where
  "digit_val c = length (takeWhile (\<lambda>d. d \<noteq> c) ''0123456789'')"

definition undecimal :: "string \<Rightarrow> nat" where
  "undecimal s = foldl (\<lambda>a c. 10 * a + digit_val c) 0 s"

text \<open>A list of writes done one after the other on the files of a file system.\<close>

definition upd_all :: "(path \<times> string) list \<Rightarrow> (path \<times> string) list \<Rightarrow> (path \<times> string) list" where
  "upd_all ups l = fold (\<lambda>(p, content). AList.update p content) ups l"

text \<open>A file can be written at a path that is not a directory and whose parent is one.\<close>

definition can_write :: "filesystem \<Rightarrow> path \<Rightarrow> bool" where
  "can_write fs p \<longleftrightarrow> \<not> is_dir fs p \<and> is_dir fs (parent p)"

text \<open>The writes that the loop of \<^verbatim>\<open>split_single_file\<close> does for a list of numbered
  statements: path and text, in the order of the loop.\<close>

fun planned_writes ::
  "(string \<Rightarrow> int) \<Rightarrow> string \<Rightarrow> path \<Rightarrow> filesystem \<Rightarrow> (nat \<times> string) list \<Rightarrow> (path \<times> string) list" where
  "planned_writes h source_prefix output_dir fs [] = []"
| "planned_writes h source_prefix output_dir fs ((i, statement) # rest) =
     (if strip statement \<noteq> []
         \<and> can_write fs (output_dir @ [output_filename h source_prefix i statement])
      then [(output_dir @ [output_filename h source_prefix i statement],
             strip statement @ [CHR 0x0A])]
      else [])
     @ planned_writes h source_prefix output_dir fs rest"

text \<open>A pattern each of whose matches takes at least one character.\<close>

fun consumes :: "regex \<Rightarrow> bool" where
  "consumes (Chr p) = True"
| "consumes (Cls k) = True"
| "consumes (Plus k) = True"
| "consumes (Star k) = False"
| "consumes (StarLazy k) = False"
| "consumes Eps = False"
| "consumes Eol = False"
| "consumes (Seq a b) = (consumes a \<or> consumes b)"
| "consumes (Alt a b) = (consumes a \<and> consumes b)"
| "consumes (Opt a) = False"



section \<open>Example inputs\<close>

text \<open>A hash function for the examples, the document of the end-to-end example of the
  specification, and a file system that holds it as \<^verbatim>\<open>demo.sql\<close> and nothing else.\<close>

definition zero_hash :: "string \<Rightarrow> int" where
  "zero_hash s = 0"


definition demo_text :: string where
  "demo_text = ''CREATE TABLE t1 (x INT); CREATE VIEW v1 AS SELECT * FROM t1;''"

definition demo_fs :: filesystem where
  "demo_fs = \<lparr>files = [([''demo.sql''], demo_text)], dirs = []\<rparr>"


definition folder_fs :: filesystem where
  "folder_fs = \<lparr>files = [([''in'', ''a.sql''], ''CREATE TABLE t (x INT);'')], dirs = [[''in'']]\<rparr>"

text \<open>A document in which a view comes before a table.\<close>

definition out_of_order_text :: string where
  "out_of_order_text = ''CREATE VIEW v AS SELECT 1; CREATE TABLE t (x INT);''"



text \<open>Two files without the suffix of a DDL file, and the folder of the specification
  with \<^verbatim>\<open>a.sql\<close>, \<^verbatim>\<open>b.DDL\<close> and \<^verbatim>\<open>notes.txt\<close>.\<close>

definition txt_fs :: filesystem where
  "txt_fs = \<lparr>files = [([''notes.txt''], ''CREATE TABLE t (x INT);''),
                       ([''README''], ''CREATE TABLE u (y INT);'')],
             dirs = []\<rparr>"

definition mixed_fs :: filesystem where
  "mixed_fs = \<lparr>files = [([''d'', ''a.sql''], ''CREATE TABLE a1 (x INT);''),
                         ([''d'', ''b.DDL''], ''CREATE TABLE b1 (x INT); CREATE TABLE b2 (y INT);''),
                         ([''d'', ''notes.txt''], ''CREATE TABLE n (x INT);'')],
               dirs = [[''d'']]\<rparr>"

definition empty_fs :: filesystem where
  "empty_fs = \<lparr>files = [], dirs = []\<rparr>"

section \<open>Substitution of one character class\<close>

lemma sub_cls: "sub ic (Cls k) rep s = concat (map (\<lambda>c. if in_class k c then rep else [c]) s)"
proof (induction s)
  case Nil
  show ?case by (subst sub.simps) (simp add: match_here_def)
next
  case (Cons c cs)
  show ?case by (subst sub.simps) (simp add: match_here_def Cons.IH)
qed

lemma sanitize_filename_map:
  "sanitize_filename f = take 200 (map (\<lambda>c. if c \<in> set illegal_chars then CHR ''_'' else c) f)"
proof -
  have "concat (map (\<lambda>c. if in_class Illegal c then ''_'' else [c]) f)
        = map (\<lambda>c. if c \<in> set illegal_chars then CHR ''_'' else c) f"
    by (induction f) auto
  then show ?thesis
    by (simp add: sanitize_filename_def sub_cls Let_def)
qed

lemma sanitize_filename_legal: "set (sanitize_filename f) \<inter> set illegal_chars = {}"
proof -
  have "CHR ''_'' \<notin> set illegal_chars"
    by (simp add: illegal_chars_def)
  then have "set (map (\<lambda>c. if c \<in> set illegal_chars then CHR ''_'' else c) f)
               \<inter> set illegal_chars = {}"
    by auto
  moreover have "set (sanitize_filename f)
                   \<subseteq> set (map (\<lambda>c. if c \<in> set illegal_chars then CHR ''_'' else c) f)"
    unfolding sanitize_filename_map by (rule set_take_subset)
  ultimately show ?thesis by blast
qed

section \<open>The name derived for a quoted, qualified identifier\<close>

text \<open>
  C3, as the specification states it: for the object name \<^verbatim>\<open>"My.Schema"."Table 1"\<close> the
  derived name is \<^verbatim>\<open>Table 1\<close>. The code does not derive that name: the name group
  \<^verbatim>\<open>[^\s(]+\<close> stops at the first white space, inside the quotes.
\<close>

theorem C3_name_is_not_Table_1:
  \<open>map_option snd (object_descriptor ''CREATE TABLE "My.Schema"."Table 1" (x INT);'')
     \<noteq> Some ''Table 1''\<close>
  by code_simp

text \<open>
  C3, amended: for the statement \<^verbatim>\<open>CREATE TABLE "My.Schema"."Table 1" (x INT);\<close> the kind is
  \<^verbatim>\<open>table\<close> and the derived name is \<^verbatim>\<open>Table\<close>: the name token ends at the first white
  space or opening parenthesis, the quotes are removed from it and its last segment after
  a dot is kept. The sanitization replaces each of the characters
  \<^verbatim>\<open>< > : " / \ | ? *\<close> by an underscore and keeps the first 200 characters, so that none of
  these characters is left.
\<close>

theorem C3_descriptor_of_quoted_name:
  \<open>object_descriptor ''CREATE TABLE "My.Schema"."Table 1" (x INT);'' = Some (''table'', ''Table'')
   \<and> sanitize_filename f
       = take 200 (map (\<lambda>c. if c \<in> set illegal_chars then CHR ''_'' else c) f)
   \<and> set (sanitize_filename f) \<inter> set illegal_chars = {}\<close>
proof -
  have \<open>object_descriptor ''CREATE TABLE "My.Schema"."Table 1" (x INT);''
          = Some (''table'', ''Table'')\<close>
    by code_simp
  then show ?thesis
    using sanitize_filename_map [of f] sanitize_filename_legal [of f] by simp
qed

section \<open>The end-to-end example\<close>

text \<open>
  C1: the run of the tool on \<^verbatim>\<open>demo.sql\<close> with no output argument, evaluated. The exit code
  is 0 and the directory \<^verbatim>\<open>demo_split\<close> is made, but it holds three files and three
  statements are counted: the view is matched by the pattern for \<^verbatim>\<open>VIEW\<close> and again by the
  pattern for an optional \<^verbatim>\<open>MATERIALIZED\<close> before \<^verbatim>\<open>VIEW\<close>, and is written a second time as
  \<^verbatim>\<open>demo_0003_view_v1.sql\<close>.
\<close>

theorem C1_demo_run:
  "main h [''ddl_splitter.py'', ''demo.sql''] [] NoInterrupt demo_fs =
     (0, \<lparr>files =
            [([''demo.sql''], demo_text),
             ([''demo_split'', ''demo_0001_table_t1.sql''],
              ''CREATE TABLE t1 (x INT);'' @ [CHR 0x0A]),
             ([''demo_split'', ''demo_0002_view_v1.sql''],
              ''CREATE VIEW v1 AS SELECT * FROM t1;'' @ [CHR 0x0A]),
             ([''demo_split'', ''demo_0003_view_v1.sql''],
              ''CREATE VIEW v1 AS SELECT * FROM t1;'' @ [CHR 0x0A])],
          dirs = [[''demo_split'']]\<rparr>)
   \<and> fst (split_ddl h demo_fs [''demo.sql''] [''demo_split'']) = Inr (1, 3)"
  by code_simp

section \<open>Exit codes under an interrupt\<close>








section \<open>The ordinal makes the file names distinct\<close>

lemma digit_val_digit_char: "d < 10 \<Longrightarrow> digit_val (digit_char d) = d"
proof -
  assume "d < 10"
  then have "d \<in> {0,1,2,3,4,5,6,7,8,9}" by auto
  then show ?thesis
    by (auto simp: digit_val_def digit_char_def)
qed

lemma digit_char_not_underscore: "d < 10 \<Longrightarrow> digit_char d \<noteq> CHR ''_''"
proof -
  assume "d < 10"
  then have "d \<in> {0,1,2,3,4,5,6,7,8,9}" by auto
  then show ?thesis
    by (auto simp: digit_char_def)
qed

lemma undecimal_snoc: "undecimal (s @ [c]) = 10 * undecimal s + digit_val c"
  by (simp add: undecimal_def)

lemma undecimal_decimal: "undecimal (decimal n) = n"
proof (induction n rule: decimal.induct)
  case (1 n)
  show ?case
  proof (cases "n < 10")
    case True
    then show ?thesis
      by (subst decimal.simps) (simp add: undecimal_def digit_val_digit_char)
  next
    case False
    then have "undecimal (decimal (n div 10)) = n div 10"
      using 1 by simp
    with False show ?thesis
      by (subst decimal.simps) (simp add: undecimal_snoc digit_val_digit_char)
  qed
qed

lemma decimal_no_underscore: "CHR ''_'' \<notin> set (decimal n)"
proof (induction n rule: decimal.induct)
  case (1 n)
  show ?case
  proof (cases "n < 10")
    case True
    then show ?thesis
      using digit_char_not_underscore [of n] by (subst decimal.simps) auto
  next
    case False
    then have "CHR ''_'' \<notin> set (decimal (n div 10))"
      using 1 by simp
    with False show ?thesis
      using digit_char_not_underscore [of "n mod 10"] by (subst decimal.simps) auto
  qed
qed

lemma undecimal_zeros: "undecimal (replicate k CHR ''0'' @ s) = undecimal s"
proof -
  have z: "digit_val CHR ''0'' = 0"
    by (simp add: digit_val_def)
  have "foldl (\<lambda>a c. 10 * a + digit_val c) 0 (replicate k CHR ''0'') = 0"
    by (induction k) (simp_all add: z)
  then show ?thesis
    by (simp add: undecimal_def)
qed

lemma undecimal_format_04d: "undecimal (format_04d n) = n"
  by (simp add: format_04d_def zero_pad_def undecimal_zeros undecimal_decimal)

lemma format_04d_no_underscore: "CHR ''_'' \<notin> set (format_04d n)"
  by (simp add: format_04d_def zero_pad_def decimal_no_underscore)

lemma format_04d_inj: "format_04d i = format_04d j \<Longrightarrow> i = j"
  by (metis undecimal_format_04d)

lemma takeWhile_sep:
  "c \<notin> set a \<Longrightarrow> takeWhile (\<lambda>x. x \<noteq> c) (a @ c # x) = a"
  by (induction a) auto

lemma output_filename_ordinal:
  assumes "output_filename h prefix i s = output_filename h prefix j s'"
  shows "i = j"
proof -
  from assms obtain x y where
    "format_04d i @ CHR ''_'' # x = format_04d j @ CHR ''_'' # y"
    by (auto simp: output_filename_def Let_def)
  then have "takeWhile (\<lambda>c. c \<noteq> CHR ''_'') (format_04d i @ CHR ''_'' # x)
             = takeWhile (\<lambda>c. c \<noteq> CHR ''_'') (format_04d j @ CHR ''_'' # y)"
    by simp
  then have "format_04d i = format_04d j"
    by (simp add: takeWhile_sep format_04d_no_underscore)
  then show ?thesis
    by (rule format_04d_inj)
qed

lemma distinct_names:
  "distinct (map (\<lambda>(i, s). output_filename h prefix i s) (List.enumerate n stmts))"
proof -
  have "inj_on (\<lambda>(i, s). output_filename h prefix i s) (set (List.enumerate n stmts))"
  proof (rule inj_onI)
    fix a b
    assume a: "a \<in> set (List.enumerate n stmts)" and b: "b \<in> set (List.enumerate n stmts)"
      and e: "(case a of (i, s) \<Rightarrow> output_filename h prefix i s)
              = (case b of (i, s) \<Rightarrow> output_filename h prefix i s)"
    obtain i s where [simp]: "a = (i, s)" by (cases a)
    obtain j t where [simp]: "b = (j, t)" by (cases b)
    from e have "i = j" by (simp add: output_filename_ordinal)
    moreover from a b have "s = stmts ! (i - n)" "t = stmts ! (j - n)"
      by (auto simp: in_set_enumerate_eq)
    ultimately show "a = b" by simp
  qed
  moreover have "distinct (List.enumerate n stmts)"
    by (simp add: distinct_enumerate)
  ultimately show ?thesis
    by (simp add: distinct_map)
qed

text \<open>
  C7: the file names that one document gives are pairwise distinct, whatever the
  descriptors of its statements are: the names of the numbered statements, with the
  ordinals of \<^verbatim>\<open>enumerate\<close>, form a list without repetition.
\<close>

theorem C7_output_filenames_distinct:
  "distinct (map (\<lambda>(i, statement). output_filename h source_prefix i statement)
               (List.enumerate 1 all_statements))"
  by (rule distinct_names)

section \<open>Matches and the scan of the text\<close>

lemma rmatch_sound: "(m, t) \<in> set (rmatch ic r s) \<Longrightarrow> s = m @ t"
proof (induction r arbitrary: s m t)
  case (Seq a b)
  then obtain m1 t1 m2 where "(m1, t1) \<in> set (rmatch ic a s)" "(m2, t) \<in> set (rmatch ic b t1)"
    "m = m1 @ m2"
    by auto
  with Seq.IH show ?case by fastforce
qed (auto simp: splits_at_def split: list.splits if_splits)

lemma match_here_sound: "match_here ic r s = Some (m, t) \<Longrightarrow> s = m @ t"
  unfolding match_here_def using rmatch_sound [of m t ic r s]
  by (auto split: list.splits)

lemma findall_Nil: "findall ic r [] = []"
  by (subst findall.simps) (auto split: option.splits)

lemma findall_None: "match_here ic r (c # cs) = None \<Longrightarrow> findall ic r (c # cs) = findall ic r cs"
  by (subst findall.simps) simp

lemma findall_Some:
  "match_here ic r s = Some (m, t) \<Longrightarrow> m \<noteq> [] \<Longrightarrow> findall ic r s = m # findall ic r t"
  using match_here_sound [of ic r s m t] by (subst findall.simps) auto

lemma findall_Some_empty:
  "match_here ic r (c # cs) = Some ([], t) \<Longrightarrow> findall ic r (c # cs) = findall ic r cs"
  using match_here_sound [of ic r "c # cs" "[]" t] by (subst findall.simps) auto

lemma findall_cases:
  obtains (empty) "s = []" "findall ic r s = []"
  | (skip) c cs where "s = c # cs" "findall ic r s = findall ic r cs"
  | (hit) m t where "match_here ic r s = Some (m, t)" "m \<noteq> []" "s = m @ t"
      "findall ic r s = m # findall ic r t"
proof (cases s)
  case Nil
  then have "findall ic r s = []" by (simp only: findall_Nil)
  with Nil show ?thesis by (rule empty)
next
  case (Cons c cs)
  show ?thesis
  proof (cases "match_here ic r s")
    case None
    then have "findall ic r s = findall ic r cs"
      unfolding Cons by (rule findall_None)
    with Cons show ?thesis by (rule skip)
  next
    case (Some x)
    obtain m t where x: "x = (m, t)" by (cases x)
    show ?thesis
    proof (cases "m = []")
      case True
      have "match_here ic r (c # cs) = Some ([], t)"
        using Some x True Cons by simp
      then have "findall ic r (c # cs) = findall ic r cs"
        by (rule findall_Some_empty)
      then have "findall ic r s = findall ic r cs"
        using Cons by simp
      with Cons show ?thesis by (rule skip)
    next
      case False
      have mh: "match_here ic r s = Some (m, t)"
        using Some x by simp
      then have "s = m @ t" by (rule match_here_sound)
      moreover have "findall ic r s = m # findall ic r t"
        using mh False by (rule findall_Some)
      ultimately show ?thesis
        using mh False hit by blast
    qed
  qed
qed

lemma in_order_iff:
  "in_order (m # ms) s \<longleftrightarrow> (\<exists>pre post. s = pre @ m @ post \<and> in_order ms post)"
proof
  assume "in_order (m # ms) s"
  then have "\<exists>j \<in> set [0 ..< Suc (length s)]. take (length m) (drop j s) = m
               \<and> in_order ms (drop (j + length m) s)"
    unfolding in_order.simps list_ex_iff .
  then obtain j where j: "take (length m) (drop j s) = m"
    "in_order ms (drop (j + length m) s)"
    by blast
  have "s = take j s @ take (length m) (drop j s) @ drop (length m) (drop j s)"
    by (simp only: append_take_drop_id)
  moreover have "drop (length m) (drop j s) = drop (j + length m) s"
    by (simp add: add.commute)
  ultimately have "s = take j s @ m @ drop (j + length m) s"
    using j(1) by simp
  with j(2) show "\<exists>pre post. s = pre @ m @ post \<and> in_order ms post"
    by blast
next
  assume "\<exists>pre post. s = pre @ m @ post \<and> in_order ms post"
  then obtain pre post where s: "s = pre @ m @ post" and p: "in_order ms post"
    by blast
  have "length pre \<in> set [0 ..< Suc (length s)]"
    using s by simp
  moreover have "take (length m) (drop (length pre) s) = m"
    using s by simp
  moreover have "in_order ms (drop (length pre + length m) s)"
    using s p by simp
  ultimately show "in_order (m # ms) s"
    unfolding in_order.simps list_ex_iff by blast
qed

lemma in_order_shift: "in_order ms t \<Longrightarrow> in_order ms (p @ t)"
proof (cases ms)
  case Nil
  then show ?thesis by simp
next
  case (Cons m ms')
  assume "in_order ms t"
  with Cons obtain pre post where "t = pre @ m @ post" "in_order ms' post"
    using in_order_iff by blast
  then have "p @ t = (p @ pre) @ m @ post \<and> in_order ms' post"
    by simp
  then show ?thesis
    unfolding Cons in_order_iff by blast
qed

lemma findall_in_order: "in_order (findall ic r s) s"
proof (induction s rule: length_induct)
  case (1 s)
  show ?case
  proof (cases rule: findall_cases [of s ic r])
    case empty
    then show ?thesis by simp
  next
    case (skip c cs)
    with 1 have "in_order (findall ic r cs) cs" by simp
    then have "in_order (findall ic r cs) ([c] @ cs)" by (rule in_order_shift)
    with skip show ?thesis by simp
  next
    case (hit m t)
    then have "length t < length s" by simp
    with 1 have "in_order (findall ic r t) t" by blast
    with hit(3) have "in_order (m # findall ic r t) s"
      unfolding in_order_iff by (metis append_Nil)
    with hit show ?thesis by simp
  qed
qed

lemma findall_matches:
  "x \<in> set (findall ic r s) \<Longrightarrow> \<exists>u t. match_here ic r u = Some (x, t) \<and> x \<noteq> []"
proof (induction s rule: length_induct)
  case (1 s)
  show ?case
  proof (cases rule: findall_cases [of s ic r])
    case empty
    with 1(2) show ?thesis by simp
  next
    case (skip c cs)
    then have "length cs < length s" "x \<in> set (findall ic r cs)"
      using 1(2) by simp_all
    with 1(1) show ?thesis by blast
  next
    case (hit m t)
    then have "x = m \<or> x \<in> set (findall ic r t)"
      using 1(2) by simp
    then show ?thesis
    proof
      assume "x = m"
      with hit show ?thesis by blast
    next
      assume "x \<in> set (findall ic r t)"
      moreover have "length t < length s" using hit by simp
      ultimately show ?thesis using 1(1) by blast
    qed
  qed
qed

section \<open>What the loop writes\<close>


lemma upd_all_Nil: "upd_all [] l = l"
  by (simp add: upd_all_def)

lemma upd_all_Cons: "upd_all ((k, v) # ups) l = upd_all ups (AList.update k v l)"
  by (simp add: upd_all_def)

lemma upd_all_append: "upd_all (a @ b) l = upd_all b (upd_all a l)"
  by (simp add: upd_all_def)





lemma can_write_files [simp]: "can_write (fs\<lparr>files := x\<rparr>) p = can_write fs p"
  by (simp add: can_write_def is_dir_def)

lemma planned_writes_files [simp]:
  "planned_writes h prefix out (fs\<lparr>files := x\<rparr>) xs = planned_writes h prefix out fs xs"
  by (induction xs) auto

lemma write_file_can_write:
  "write_file fs p c = (if can_write fs p then Inr (fs\<lparr>files := AList.update p c (files fs)\<rparr>)
                        else if is_dir fs p then Inl IsADirectoryError else Inl FileNotFoundError)"
  by (simp add: write_file_def can_write_def)

lemma write_statements_planned:
  "write_statements h prefix out xs (n, fs)
   = (n + length (planned_writes h prefix out fs xs),
      fs\<lparr>files := upd_all (planned_writes h prefix out fs xs) (files fs)\<rparr>)"
proof (induction xs arbitrary: n fs)
  case Nil
  show ?case by (simp add: upd_all_Nil)
next
  case (Cons a xs)
  obtain i s where a: "a = (i, s)" by (cases a)
  show ?case
  proof (cases "strip s \<noteq> [] \<and> can_write fs (out @ [output_filename h prefix i s])")
    case True
    then show ?thesis
      unfolding a by (simp add: Cons.IH write_file_can_write Let_def upd_all_Cons)
  next
    case False
    then show ?thesis
      unfolding a by (auto simp add: Cons.IH write_file_can_write Let_def)
  qed
qed








section \<open>A second run on the same input\<close>

lemma is_file_keys: "is_file fs p \<longleftrightarrow> p \<in> fst ` set (files fs)"
  by (simp add: is_file_def map_of_eq_None_iff)




lemma mkdir_parents_files: "mkdir_parents fs out = Inr fsA \<Longrightarrow> files fsA = files fs"
  by (auto simp: mkdir_parents_def split: if_splits)



lemma split_single_file_ok:
  assumes "mkdir_parents fs out = Inr fsA" "map_of (files fs) input_file = Some content"
    and "xs = List.enumerate 1 (extract_statements (normalize content))"
    and "ups = planned_writes h (stem input_file) out fsA xs"
  shows "split_single_file h fs input_file out
         = (Inr (length xs, length ups), fsA\<lparr>files := upd_all ups (files fs)\<rparr>)"
  using assms mkdir_parents_files [OF assms(1)]
  by (simp add: split_single_file_def read_file_def write_statements_planned Let_def)

lemma split_single_file_unreadable:
  assumes "mkdir_parents fs out = Inr fsA" "map_of (files fs) input_file = None"
  shows "split_single_file h fs input_file out
         = (Inl (if is_dir fsA input_file then IsADirectoryError else FileNotFoundError), fsA)"
  using assms mkdir_parents_files [OF assms(1)]
  by (cases "is_dir fsA input_file") (simp_all add: split_single_file_def read_file_def)






text \<open>In the folder mode a second run is no repetition of the first either, when the
  output directory lies below the input folder: the second run also splits the files
  that the first run wrote.\<close>

lemma folder_second_run_differs:
  "snd (main zero_hash [''ddl_splitter.py'', ''in'', ''in/out''] [] NoInterrupt
          (snd (main zero_hash [''ddl_splitter.py'', ''in'', ''in/out''] [] NoInterrupt folder_fs)))
   \<noteq> snd (main zero_hash [''ddl_splitter.py'', ''in'', ''in/out''] [] NoInterrupt folder_fs)"
  by code_simp




section \<open>Every extracted statement ends with the terminator\<close>

lemma lower_char_semicolon: "lower_char c = CHR '';'' \<longleftrightarrow> c = CHR '';''"
  by (auto simp: lower_char_def split: option.splits if_splits)

lemma chr_eq_semicolon: "chr_eq ic CHR '';'' c \<longleftrightarrow> c = CHR '';''"
  using lower_char_semicolon [of c] by (auto simp: chr_eq_def lower_char_def)

lemma rmatch_Seq_iff:
  "(m, t) \<in> set (rmatch ic (Seq a b) s) \<longleftrightarrow>
   (\<exists>m1 t1 m2. (m1, t1) \<in> set (rmatch ic a s) \<and> (m2, t) \<in> set (rmatch ic b t1) \<and> m = m1 @ m2)"
  by force

lemma rmatch_semicolon:
  "(m, t) \<in> set (rmatch ic (Chr CHR '';'') s) \<longleftrightarrow> m = '';'' \<and> s = CHR '';'' # t"
  by (auto simp: chr_eq_semicolon split: list.splits)

lemma ddl_match_ends:
  assumes "(m, t) \<in> set (rmatch ic (ddl kw) s)"
  shows "\<exists>y. m = y @ '';''"
proof -
  from assms obtain m1 m2 t1 where "(m2, t) \<in> set (rmatch ic (Seq kw body_tail) t1)" "m = m1 @ m2"
    unfolding ddl_def rmatch_Seq_iff by blast
  moreover then obtain m3 m4 t2 where "(m4, t) \<in> set (rmatch ic body_tail t2)" "m2 = m3 @ m4"
    unfolding rmatch_Seq_iff by blast
  moreover then obtain m5 m6 t3 where
    "(m6, t) \<in> set (rmatch ic (Seq (Plus NotSemi) (Chr CHR '';'')) t3)" "m4 = m5 @ m6"
    unfolding body_tail_def rmatch_Seq_iff by blast
  moreover then obtain m7 m8 t4 where "(m8, t) \<in> set (rmatch ic (Chr CHR '';'') t4)" "m6 = m7 @ m8"
    unfolding rmatch_Seq_iff by blast
  moreover then have "m8 = '';''"
    unfolding rmatch_semicolon by simp
  ultimately have "m = (m1 @ m3 @ m5 @ m7) @ '';''"
    by simp
  then show ?thesis by blast
qed

lemma DDL_PATTERNS_ddl: "p \<in> set DDL_PATTERNS \<Longrightarrow> \<exists>kw. p = ddl kw"
  by (auto simp: DDL_PATTERNS_def)


lemma semicolon_not_space: "\<not> is_space CHR '';''"
  by (simp add: is_space_def)

lemma strip_semicolon: "strip (y @ '';'') = lstrip y @ '';''"
proof -
  have "lstrip (y @ '';'') = lstrip y @ '';''"
    by (simp add: lstrip_def dropWhile_append semicolon_not_space)
  moreover have "rstrip (z @ '';'') = z @ '';''" for z
    by (simp add: rstrip_def semicolon_not_space)
  ultimately show ?thesis
    by (simp add: strip_def)
qed

lemma pattern_statement_ends:
  assumes "s \<in> set (pattern_statements content)"
  shows "\<exists>y. s = y @ '';''"
proof -
  from assms obtain p where p: "p \<in> set DDL_PATTERNS" and s: "s \<in> set (findall True p content)"
    by (auto simp: pattern_statements_def)
  from s obtain u t where "match_here True p u = Some (s, t)"
    using findall_matches by blast
  then have "(s, t) \<in> set (rmatch True p u)"
    by (auto simp: match_here_def split: list.splits)
  moreover from p obtain kw where "p = ddl kw"
    using DDL_PATTERNS_ddl by blast
  ultimately show ?thesis
    using ddl_match_ends by blast
qed

lemma extracted_statement_ends:
  assumes "s \<in> set (extract_statements content)"
  shows "\<exists>y. s = y @ '';''"
proof (cases "pattern_statements content = []")
  case True
  with assms have "s \<in> set (fallback_statements content)"
    by (simp add: extract_statements_def)
  then show ?thesis
    by (auto simp: fallback_statements_def)
next
  case False
  with assms have "s \<in> set (pattern_statements content)"
    by (simp add: extract_statements_def Let_def)
  then show ?thesis
    by (rule pattern_statement_ends)
qed

lemma extracted_statement_trimmed:
  assumes "s \<in> set (extract_statements content)"
  shows "strip s \<noteq> [] \<and> endswith (strip s) '';''"
proof -
  from assms obtain y where "s = y @ '';''"
    using extracted_statement_ends by blast
  then have "strip s = lstrip y @ '';''"
    by (simp add: strip_semicolon)
  then show ?thesis
    by (simp add: endswith_def)
qed

lemma map_of_upd_all_cases:
  "map_of (upd_all ups l) p = Some c \<Longrightarrow> (p, c) \<in> set ups \<or> map_of l p = Some c"
proof (induction ups arbitrary: l)
  case Nil
  then show ?case by (simp add: upd_all_Nil)
next
  case (Cons a ups)
  obtain k v where a: "a = (k, v)" by (cases a)
  from Cons.prems have "map_of (upd_all ups (AList.update k v l)) p = Some c"
    unfolding a upd_all_Cons .
  then have "(p, c) \<in> set ups \<or> map_of (AList.update k v l) p = Some c"
    by (rule Cons.IH)
  then show ?case
    unfolding a by (auto simp: update_Some_unfold)
qed

lemma planned_writes_mem:
  "(p, c) \<in> set (planned_writes h prefix out fs xs) \<Longrightarrow>
   \<exists>i s. (i, s) \<in> set xs \<and> strip s \<noteq> [] \<and> p = out @ [output_filename h prefix i s]
         \<and> c = strip s @ [CHR 0x0A]"
proof (induction xs)
  case Nil
  then show ?case by simp
next
  case (Cons a xs)
  obtain i s where a: "a = (i, s)" by (cases a)
  from Cons.prems have
    "(strip s \<noteq> [] \<and> p = out @ [output_filename h prefix i s] \<and> c = strip s @ [CHR 0x0A])
      \<or> (p, c) \<in> set (planned_writes h prefix out fs xs)"
    unfolding a by (auto split: if_splits)
  then show ?case
  proof
    assume "strip s \<noteq> [] \<and> p = out @ [output_filename h prefix i s] \<and> c = strip s @ [CHR 0x0A]"
    then show ?thesis unfolding a by auto
  next
    assume "(p, c) \<in> set (planned_writes h prefix out fs xs)"
    then obtain j t where "(j, t) \<in> set xs" "strip t \<noteq> []"
      "p = out @ [output_filename h prefix j t]" "c = strip t @ [CHR 0x0A]"
      using Cons.IH by blast
    then show ?thesis by auto
  qed
qed

lemma written_text_ends:
  assumes run: "split_single_file h fs input_file out = (r, fs')"
    and new: "map_of (files fs') p = Some c" "map_of (files fs) p \<noteq> Some c"
  shows "\<exists>s. c = s @ [CHR 0x0A] \<and> s \<noteq> [] \<and> endswith s '';''"
proof (cases "mkdir_parents fs out")
  case (Inl e)
  with run new show ?thesis
    by (simp add: split_single_file_def)
next
  case (Inr fsA)
  show ?thesis
  proof (cases "map_of (files fs) input_file")
    case None
    with Inr run new mkdir_parents_files [OF Inr] show ?thesis
      by (auto simp: split_single_file_unreadable)
  next
    case (Some content)
    define xs where "xs = List.enumerate 1 (extract_statements (normalize content))"
    define ups where "ups = planned_writes h (stem input_file) out fsA xs"
    from split_single_file_ok [OF Inr Some xs_def ups_def] run
    have "files fs' = upd_all ups (files fs)"
      by auto
    with new have "(p, c) \<in> set ups"
      using map_of_upd_all_cases by fastforce
    then obtain i s where "(i, s) \<in> set xs" "c = strip s @ [CHR 0x0A]"
      unfolding ups_def using planned_writes_mem by blast
    moreover then have "s \<in> set (extract_statements (normalize content))"
      by (auto simp: xs_def in_set_enumerate_eq)
    ultimately show ?thesis
      using extracted_statement_trimmed by blast
  qed
qed


text \<open>
  C6: a statement that is empty when trimmed is passed over by the loop, which neither
  writes a file for it nor counts it; every extracted statement is, when trimmed, not
  empty and ends with the terminator \<^verbatim>\<open>;\<close>; and every file that a run of
  \<^verbatim>\<open>split_single_file\<close> writes or changes holds such a text, followed by a line feed.
\<close>

theorem C6_empty_skipped_written_end_with_semicolon:
  "(strip statement = [] \<longrightarrow>
      write_statements h source_prefix output_dir ((i, statement) # rest) (n, fs)
      = write_statements h source_prefix output_dir rest (n, fs))
   \<and> (\<forall>s \<in> set (extract_statements content). strip s \<noteq> [] \<and> endswith (strip s) '';'')
   \<and> (split_single_file h fs input_file output_dir = (r, fs')
        \<and> map_of (files fs') p = Some written \<and> map_of (files fs) p \<noteq> Some written
      \<longrightarrow> (\<exists>s. written = s @ [CHR 0x0A] \<and> s \<noteq> [] \<and> endswith s '';''))"
  using extracted_statement_trimmed written_text_ends by auto


theorem C6_empty_skipped_written_end_with_semicolon_witness:
  "strip '' '' = []
   \<and> write_statements zero_hash ''demo'' [''out''] [(1, '' '')] (0, empty_fs) = (0, empty_fs)
   \<and> ''CREATE FOO x;'' \<in> set (extract_statements ''CREATE FOO x;'')
   \<and> endswith (strip ''CREATE FOO x;'') '';''
   \<and> (\<exists>s. ''CREATE TABLE t1 (x INT);'' @ [CHR 0x0A] = s @ [CHR 0x0A] \<and> s \<noteq> []
            \<and> endswith s '';'')"
proof -
  have e: "strip '' '' = []"
    by code_simp
  have m: "''CREATE FOO x;'' \<in> set (extract_statements ''CREATE FOO x;'')"
    by code_simp
  have run: "split_single_file zero_hash demo_fs [''demo.sql''] [''demo_split'']
             = (fst (split_single_file zero_hash demo_fs [''demo.sql''] [''demo_split'']),
                snd (split_single_file zero_hash demo_fs [''demo.sql''] [''demo_split'']))"
    by simp
  have new: "map_of (files (snd (split_single_file zero_hash demo_fs [''demo.sql''] [''demo_split''])))
               [''demo_split'', ''demo_0001_table_t1.sql'']
             = Some (''CREATE TABLE t1 (x INT);'' @ [CHR 0x0A])"
    by code_simp
  have old: "map_of (files demo_fs) [''demo_split'', ''demo_0001_table_t1.sql'']
             \<noteq> Some (''CREATE TABLE t1 (x INT);'' @ [CHR 0x0A])"
    by code_simp
  note c6 = C6_empty_skipped_written_end_with_semicolon
    [where statement = "'' ''" and h = zero_hash and source_prefix = "''demo''"
       and output_dir = "[''demo_split'']" and i = 1 and rest = "[]" and n = 0 and fs = demo_fs
       and content = "''CREATE FOO x;''" and input_file = "[''demo.sql'']"
       and r = "fst (split_single_file zero_hash demo_fs [''demo.sql''] [''demo_split''])"
       and fs' = "snd (split_single_file zero_hash demo_fs [''demo.sql''] [''demo_split''])"
       and p = "[''demo_split'', ''demo_0001_table_t1.sql'']"
       and written = "''CREATE TABLE t1 (x INT);'' @ [CHR 0x0A]"]
  note c6' = C6_empty_skipped_written_end_with_semicolon
    [where statement = "'' ''" and h = zero_hash and source_prefix = "''demo''"
       and output_dir = "[''out'']" and i = 1 and rest = "[]" and n = 0 and fs = empty_fs]
  have "write_statements zero_hash ''demo'' [''out''] [(1, '' '')] (0, empty_fs) = (0, empty_fs)"
    using c6' e by simp
  moreover have "endswith (strip ''CREATE FOO x;'') '';''"
    using c6 m by blast
  moreover have "\<exists>s. ''CREATE TABLE t1 (x INT);'' @ [CHR 0x0A] = s @ [CHR 0x0A] \<and> s \<noteq> []
                    \<and> endswith s '';''"
    using c6 run new old by blast
  ultimately show ?thesis
    using e m by blast
qed

section \<open>The order of the extracted statements\<close>

text \<open>
  C2, as the specification states it: for every document the extracted sequence is the
  concatenation of the matches of the patterns. For a document in which no pattern
  matches, the concatenation is empty, and the extracted sequence is what the fallback
  gives.
\<close>

theorem C2_fallback_is_not_the_concatenation:
  "extract_statements (normalize ''CREATE FOO x;'') \<noteq> pattern_statements (normalize ''CREATE FOO x;'')"
  by code_simp


text \<open>
  C2, amended: for every document, the extracted sequence is the concatenation, in the
  order of the declaration of the patterns, of the matches of each pattern on the
  normalised text, whenever that concatenation is not empty; when it is empty, the
  sequence is that of the fallback. The matches of one pattern stand in the order of the
  document: they occur in the normalised text one after the other. Statements of
  different kinds need not: in the document that holds a view and then a table the table
  comes first in the sequence.
\<close>

theorem C2_extraction_order:
  "extract_statements (normalize document)
     = (if concat (map (\<lambda>pattern. findall True pattern (normalize document)) DDL_PATTERNS) = []
        then fallback_statements (normalize document)
        else concat (map (\<lambda>pattern. findall True pattern (normalize document)) DDL_PATTERNS))
   \<and> in_order (findall True pattern (normalize document)) (normalize document)
   \<and> extract_statements (normalize out_of_order_text)
       = [''CREATE TABLE t (x INT);'', ''CREATE VIEW v AS SELECT 1;'', ''CREATE VIEW v AS SELECT 1;'']
   \<and> \<not> in_order (extract_statements (normalize out_of_order_text)) (normalize out_of_order_text)"
proof -
  have "extract_statements (normalize out_of_order_text)
       = [''CREATE TABLE t (x INT);'', ''CREATE VIEW v AS SELECT 1;'', ''CREATE VIEW v AS SELECT 1;'']"
    by code_simp
  moreover have "\<not> in_order (extract_statements (normalize out_of_order_text))
                     (normalize out_of_order_text)"
    by code_simp
  ultimately show ?thesis
    using findall_in_order [of True pattern "normalize document"]
    by (simp add: extract_statements_def pattern_statements_def Let_def)
qed

section \<open>A run into a fresh output directory\<close>


















section \<open>The mode of a run\<close>

lemma find_ddl_files_set:
  "set (find_ddl_files fs directory)
   = {p. is_file fs p \<and> below directory p \<and> suffix p \<in> set sql_extensions}"
  by (auto simp: find_ddl_files_def is_file_keys)


text \<open>
  C10: an input path that is a regular file is split in the single-file mode, whatever its
  name is: the result of \<^verbatim>\<open>split_ddl\<close> is that of \<^verbatim>\<open>split_single_file\<close> on this file, with 1 as
  the number of files. The suffixes \<^verbatim>\<open>.sql\<close>, \<^verbatim>\<open>.ddl\<close>, \<^verbatim>\<open>.SQL\<close> and \<^verbatim>\<open>.DDL\<close> are looked at in
  the other branch only, where the files of the folder mode are those below the input
  path that have one of them.
\<close>

theorem C10_file_input_is_split_whatever_its_suffix:
  "(is_file fs input_path \<longrightarrow>
      split_ddl h fs input_path output_dir
      = (case split_single_file h fs input_path output_dir of
           (Inr (total_statements, successful_splits), fs') \<Rightarrow> (Inr (1, successful_splits), fs')
         | (Inl e, fs') \<Rightarrow> (Inl e, fs')))
   \<and> (\<not> is_file fs input_path \<longrightarrow>
      split_ddl h fs input_path output_dir
      = (if find_ddl_files fs input_path = [] then (Inr (0, 0), fs)
         else (case process_files h output_dir (find_ddl_files fs input_path) (0, 0, fs) of
                 (total_files_processed, total_statements_processed, fs') \<Rightarrow>
                   (Inr (total_files_processed, total_statements_processed), fs'))))
   \<and> set (find_ddl_files fs input_path)
       = {p. is_file fs p \<and> below input_path p \<and> suffix p \<in> set sql_extensions}"
  by (simp add: split_ddl_def Let_def find_ddl_files_set)


theorem C10_file_input_is_split_whatever_its_suffix_witness:
  "is_file txt_fs [''notes.txt''] \<and> is_file txt_fs [''README'']
   \<and> fst (split_ddl zero_hash txt_fs [''notes.txt''] [''o'']) = Inr (1, 1)
   \<and> map_of (files (snd (split_ddl zero_hash txt_fs [''README''] [''o''])))
        [''o'', ''README_0001_table_u.sql'']
      = Some (''CREATE TABLE u (y INT);'' @ [CHR 0x0A])
   \<and> \<not> is_file mixed_fs [''d'']
   \<and> fst (split_ddl zero_hash mixed_fs [''d''] [''o'']) = Inr (2, 3)
   \<and> [''d'', ''notes.txt''] \<notin> set (find_ddl_files mixed_fs [''d''])"
proof -
  have f1: "is_file txt_fs [''notes.txt'']" and f2: "is_file txt_fs [''README'']"
    and f3: "\<not> is_file mixed_fs [''d'']"
    by code_simp+
  have s1: "fst (split_single_file zero_hash txt_fs [''notes.txt''] [''o'']) = Inr (1, 1)"
    by code_simp
  have s2: "map_of (files (snd (split_single_file zero_hash txt_fs [''README''] [''o''])))
        [''o'', ''README_0001_table_u.sql'']
      = Some (''CREATE TABLE u (y INT);'' @ [CHR 0x0A])"
    by code_simp
  have s2': "fst (split_single_file zero_hash txt_fs [''README''] [''o'']) = Inr (1, 1)"
    by code_simp
  have fl: "find_ddl_files mixed_fs [''d''] = [[''d'', ''a.sql''], [''d'', ''b.DDL'']]"
    by code_simp
  have pf: "fst (case process_files zero_hash [''o''] [[''d'', ''a.sql''], [''d'', ''b.DDL'']] (0, 0, mixed_fs) of
                 (total_files_processed, total_statements_processed, fs') \<Rightarrow>
                   (Inr (total_files_processed, total_statements_processed) :: error + nat \<times> nat, fs'))
            = Inr (2, 3)"
    by code_simp
  have sx: "suffix [''d'', ''notes.txt''] \<notin> set sql_extensions"
    by code_simp
  note a = C10_file_input_is_split_whatever_its_suffix [where fs = txt_fs and input_path = "[''notes.txt'']" and h = zero_hash
      and output_dir = "[''o'']"]
  note b = C10_file_input_is_split_whatever_its_suffix [where fs = txt_fs and input_path = "[''README'']" and h = zero_hash
      and output_dir = "[''o'']"]
  note c = C10_file_input_is_split_whatever_its_suffix [where fs = mixed_fs and input_path = "[''d'']" and h = zero_hash
      and output_dir = "[''o'']"]
  have "fst (split_ddl zero_hash txt_fs [''notes.txt''] [''o'']) = Inr (1, 1)"
    using a f1 s1 by (auto split: prod.splits sum.splits)
  moreover have "map_of (files (snd (split_ddl zero_hash txt_fs [''README''] [''o''])))
        [''o'', ''README_0001_table_u.sql'']
      = Some (''CREATE TABLE u (y INT);'' @ [CHR 0x0A])"
    using b f2 s2 s2' by (auto split: prod.splits sum.splits)
  moreover have "fst (split_ddl zero_hash mixed_fs [''d''] [''o'']) = Inr (2, 3)"
    using c f3 fl pf by simp
  moreover have "[''d'', ''notes.txt''] \<notin> set (find_ddl_files mixed_fs [''d''])"
    using c sx by blast
  ultimately show ?thesis
    using f1 f2 f3 by blast
qed

section \<open>A plain view is matched by two patterns\<close>


































end
